theory Spec2Isabelle
  imports Complex_Main "HOL-Library.Char_ord" "HOL-Library.List_Lexorder"
begin

section \<open>Data model: the tabular dataset\<close>

text \<open>
  The statistics engine (\<^verbatim>\<open>survey_analyzer/statistics.py\<close>) works on a pandas
  \<^verbatim>\<open>DataFrame\<close>. The frame is modelled column-wise, as pandas stores it: a row count
  (the length of the index, \<^verbatim>\<open>len(df)\<close>) and an ordered list of named columns. A column
  carries its dtype: a float column whose missing entries are \<^verbatim>\<open>NaN\<close>, a text (object)
  column whose missing entries are \<^verbatim>\<open>None\<close>, or a datetime column whose missing entries
  are \<^verbatim>\<open>NaT\<close>. Python floats are modelled as exact reals, with \<^verbatim>\<open>NaN\<close> apart;
  strings are lists of 8-bit characters.
\<close>

datatype fl = NaN | F real

datatype column =
    NumCol "fl list"
  | TextCol "string option list"
  | TimeCol "int option list"

record dataframe =
  nrows :: nat
  cols :: "(string \<times> column) list"

text \<open>
  The exceptions the engine can raise. The last constructor is no exception of Python:
  \<open>Inl NotModelled\<close> marks an input on which the code goes on with a value that is
  no float (a timestamp or a time difference), which the model does not represent.
\<close>

datatype error =
  KeyError | TypeError | ValueError | ZeroDivisionError | AttributeError | NotModelled

fun col_len :: "column \<Rightarrow> nat" where
  "col_len (NumCol xs) = length xs"
| "col_len (TextCol xs) = length xs"
| "col_len (TimeCol xs) = length xs"

text \<open>\<^verbatim>\<open>df.columns\<close> and \<^verbatim>\<open>df[c]\<close> (the latter raises \<^verbatim>\<open>KeyError\<close> on a missing name).\<close>

definition columns :: "'a dataframe_scheme \<Rightarrow> string list" where
  "columns df = map fst (cols df)"

definition getcol :: "'a dataframe_scheme \<Rightarrow> string \<Rightarrow> column option" where
  "getcol df c = map_of (cols df) c"

text \<open>
  A frame is well formed when its column names are distinct and every column has one
  entry per row.
\<close>

definition wf_df :: "'a dataframe_scheme \<Rightarrow> bool" where
  "wf_df df \<longleftrightarrow>
     distinct (columns df) \<and> list_all (\<lambda>nc. col_len (snd nc) = nrows df) (cols df)"

definition bind_res :: "error + 'a \<Rightarrow> ('a \<Rightarrow> error + 'b) \<Rightarrow> error + 'b" where
  "bind_res m f = (case m of Inl e \<Rightarrow> Inl e | Inr x \<Rightarrow> f x)"

section \<open>Sentiment classification (\<^verbatim>\<open>get_sentiment_analysis\<close>)\<close>

definition positive_words :: "string list" where
  "positive_words = [''excellent'', ''great'', ''amazing'', ''fantastic'', ''love'', ''perfect'',
                     ''outstanding'', ''wonderful'', ''satisfied'', ''recommend'', ''exceeded'']"

definition negative_words :: "string list" where
  "negative_words = [''poor'', ''bad'', ''terrible'', ''disappointed'', ''awful'', ''horrible'',
                     ''worse'', ''not satisfied'', ''problem'', ''issue'', ''complaint'']"

text \<open>
  \<^verbatim>\<open>str.lower()\<close>: the letters A to Z go to a to z. Characters are bytes here, and the
  word lists are ASCII, so every other character is left as it is.
\<close>

definition lower_char :: "char \<Rightarrow> char" where
  "lower_char c =
     (case map_of (zip ''ABCDEFGHIJKLMNOPQRSTUVWXYZ'' ''abcdefghijklmnopqrstuvwxyz'') c of
        None \<Rightarrow> c
      | Some d \<Rightarrow> d)"

definition lower :: "string \<Rightarrow> string" where
  "lower s = map lower_char s"

text \<open>\<^verbatim>\<open>word in text\<close>: the word occurs as a contiguous substring.\<close>

fun starts_with :: "string \<Rightarrow> string \<Rightarrow> bool" where
  "starts_with [] t = True"
| "starts_with (c # w) [] = False"
| "starts_with (c # w) (d # t) = (c = d \<and> starts_with w t)"

fun py_in :: "string \<Rightarrow> string \<Rightarrow> bool" where
  "py_in w [] = starts_with w []"
| "py_in w (d # t) = (starts_with w (d # t) \<or> py_in w t)"

datatype sentiment = Positive | Neutral | Negative

text \<open>\<^verbatim>\<open>sum(word in text_lower for word in words)\<close>\<close>

definition match_count :: "string list \<Rightarrow> string \<Rightarrow> nat" where
  "match_count ws t = length (filter (\<lambda>w. py_in w t) ws)"

text \<open>
  The inner function \<^verbatim>\<open>classify_sentiment(text)\<close>, on a text cell: \<open>None\<close> is the
  missing value, for which \<^verbatim>\<open>pd.isna\<close> holds.
\<close>

definition classify_sentiment :: "string option \<Rightarrow> sentiment" where
  "classify_sentiment text =
     (case text of
        None \<Rightarrow> Neutral
      | Some s \<Rightarrow>
          (let text_lower = lower s;
               pos_count = match_count positive_words text_lower;
               neg_count = match_count negative_words text_lower
           in if pos_count > neg_count then Positive
              else if neg_count > pos_count then Negative
              else Neutral))"

text \<open>
  \<^verbatim>\<open>df_copy['feedback'].apply(classify_sentiment)\<close>. On a float or datetime column a
  missing entry is neutral through \<^verbatim>\<open>pd.isna\<close>, and \<^verbatim>\<open>str\<close> of a number or of a
  timestamp is made of digits, signs, dots, colons, blanks and the letters of
  \<^verbatim>\<open>inf\<close> and \<^verbatim>\<open>e\<close>: it contains no word of either list, so every entry is neutral.
\<close>

fun classify_column :: "column \<Rightarrow> sentiment list" where
  "classify_column (TextCol xs) = map classify_sentiment xs"
| "classify_column (NumCol xs) = map (\<lambda>_. Neutral) xs"
| "classify_column (TimeCol xs) = map (\<lambda>_. Neutral) xs"

record sentiment_summary =
  positive :: nat
  neutral :: nat
  negative :: nat
  positive_pct :: real

text \<open>
  \<^verbatim>\<open>sentiment_counts.get(k, 0)\<close> is the number of rows classified \<open>k\<close>. The last
  entry of the returned dict divides by \<^verbatim>\<open>len(df)\<close>; on a frame without rows the
  counts are the Python integer 0 and the division raises \<^verbatim>\<open>ZeroDivisionError\<close>.
\<close>

definition get_sentiment_analysis :: "'a dataframe_scheme \<Rightarrow> error + sentiment_summary option" where
  "get_sentiment_analysis df =
     (case getcol df ''feedback'' of
        None \<Rightarrow> Inr None
      | Some c \<Rightarrow>
          (let sentiments = classify_column c;
               pos = count_list sentiments Positive;
               neu = count_list sentiments Neutral;
               neg = count_list sentiments Negative
           in if nrows df = 0 then Inl ZeroDivisionError
              else Inr (Some \<lparr>positive = pos, neutral = neu, negative = neg,
                              positive_pct = real pos / real (nrows df) * 100\<rparr>)))"

text \<open>
  The classification rule in the words of the specification: the number of words of a
  list that occur as substrings of the lower-cased text.
\<close>

definition spec_occurs :: "string \<Rightarrow> string \<Rightarrow> bool" where
  "spec_occurs w t \<longleftrightarrow> (\<exists>ps ss. t = ps @ w @ ss)"

definition spec_match_count :: "string list \<Rightarrow> string \<Rightarrow> nat" where
  "spec_match_count ws t = card {w \<in> set ws. spec_occurs w t}"

section \<open>Net Promoter Score (\<^verbatim>\<open>calculate_nps\<close>)\<close>

text \<open>
  \<^verbatim>\<open>df[c] >= 9\<close>: the element-wise comparison of a column with a number. On a float
  column \<^verbatim>\<open>NaN\<close> compares false. On an object column a missing entry compares false
  and a string against a number raises \<^verbatim>\<open>TypeError\<close>; a datetime column against a
  number raises \<^verbatim>\<open>TypeError\<close>.
\<close>

fun compare_col :: "(real \<Rightarrow> bool) \<Rightarrow> column \<Rightarrow> error + bool list" where
  "compare_col p (NumCol xs) = Inr (map (\<lambda>x. case x of NaN \<Rightarrow> False | F r \<Rightarrow> p r) xs)"
| "compare_col p (TextCol xs) =
     (if list_all (\<lambda>x. x = None) xs then Inr (map (\<lambda>_. False) xs) else Inl TypeError)"
| "compare_col p (TimeCol xs) = Inl TypeError"

text \<open>\<^verbatim>\<open>len(df[mask])\<close>: the number of rows the boolean mask selects.\<close>

definition mask_len :: "bool list \<Rightarrow> nat" where
  "mask_len bs = length (filter (\<lambda>b. b) bs)"

definition calculate_nps :: "'a dataframe_scheme \<Rightarrow> string \<Rightarrow> error + real" where
  "calculate_nps df nps_column =
     (let total = nrows df
      in if total = 0 then Inr 0
         else case getcol df nps_column of
                None \<Rightarrow> Inl KeyError
              | Some c \<Rightarrow>
                  bind_res (compare_col (\<lambda>x. x \<ge> 9) c) (\<lambda>ge9.
                  bind_res (compare_col (\<lambda>x. x \<le> 6) c) (\<lambda>le6.
                    let promoters = mask_len ge9; detractors = mask_len le6
                    in Inr (real_of_int (int promoters - int detractors) / real total * 100))))"

section \<open>Completion rate (\<^verbatim>\<open>_calculate_completion_rate\<close>)\<close>

text \<open>\<^verbatim>\<open>df.isnull().sum()\<close>: the number of missing entries of each column.\<close>

fun null_count :: "column \<Rightarrow> nat" where
  "null_count (NumCol xs) = length (filter (\<lambda>x. x = NaN) xs)"
| "null_count (TextCol xs) = length (filter (\<lambda>x. x = None) xs)"
| "null_count (TimeCol xs) = length (filter (\<lambda>x. x = None) xs)"

definition calculate_completion_rate :: "'a dataframe_scheme \<Rightarrow> real" where
  "calculate_completion_rate df =
     (if nrows df = 0 then 0
      else let total_cells = nrows df * length (columns df);
               missing_cells = sum_list (map (\<lambda>nc. null_count (snd nc)) (cols df))
           in if total_cells > 0 then 100 - (real missing_cells / real total_cells * 100)
              else 100)"

section \<open>Reductions of a numeric series\<close>

text \<open>The entries of a float column that are not \<^verbatim>\<open>NaN\<close> (pandas skips the others).\<close>

fun valid :: "fl list \<Rightarrow> real list" where
  "valid [] = []"
| "valid (NaN # xs) = valid xs"
| "valid (F r # xs) = r # valid xs"

definition mean_fl :: "fl list \<Rightarrow> fl" where
  "mean_fl xs = (let vs = valid xs in if vs = [] then NaN else F (sum_list vs / real (length vs)))"

text \<open>\<^verbatim>\<open>Series.std()\<close>: the sample standard deviation (\<^verbatim>\<open>ddof=1\<close>).\<close>

definition std_fl :: "fl list \<Rightarrow> fl" where
  "std_fl xs =
     (let vs = valid xs; n = length vs
      in if n < 2 then NaN
         else let m = sum_list vs / real n
              in F (sqrt (sum_list (map (\<lambda>x. (x - m) ^ 2) vs) / real (n - 1))))"

text \<open>\<^verbatim>\<open>Series.quantile(q)\<close> with linear interpolation, and \<^verbatim>\<open>Series.median()\<close>.\<close>

definition quantile_fl :: "real \<Rightarrow> fl list \<Rightarrow> fl" where
  "quantile_fl q xs =
     (let vs = sort (valid xs); n = length vs
      in if n = 0 then NaN
         else let h = q * real (n - 1); lo = nat \<lfloor>h\<rfloor>; hi = nat \<lceil>h\<rceil>
              in F (vs ! lo + (h - real lo) * (vs ! hi - vs ! lo)))"

definition median_fl :: "fl list \<Rightarrow> fl" where
  "median_fl xs =
     (let vs = sort (valid xs); n = length vs
      in if n = 0 then NaN
         else if odd n then F (vs ! (n div 2))
         else F ((vs ! (n div 2 - 1) + vs ! (n div 2)) / 2))"

text \<open>
  A numeric reduction of a column. The statistics record holds floats: a text column
  with a string in it makes pandas raise \<^verbatim>\<open>TypeError\<close>, and a text column with
  missing entries only reduces to \<^verbatim>\<open>NaN\<close>. A datetime column raises nothing and
  reduces to a timestamp or a time difference, not to a float: this is the outcome the
  model leaves out.
\<close>

fun reduce_col :: "(fl list \<Rightarrow> fl) \<Rightarrow> column \<Rightarrow> error + fl" where
  "reduce_col f (NumCol xs) = Inr (f xs)"
| "reduce_col f (TextCol xs) = (if list_all (\<lambda>x. x = None) xs then Inr NaN else Inl TypeError)"
| "reduce_col f (TimeCol xs) = Inl NotModelled"

text \<open>
  The entries of a column as the group-wise aggregations see them. In a text column
  with missing entries only, every entry is a missing number, so that the mean and the
  standard deviation of a group are \<^verbatim>\<open>NaN\<close> and its count is 0; a string makes the
  aggregation raise \<^verbatim>\<open>TypeError\<close>; a datetime column aggregates to timestamps and
  time differences, which the model leaves out.
\<close>

fun numeric_values :: "column \<Rightarrow> error + fl list" where
  "numeric_values (NumCol xs) = Inr xs"
| "numeric_values (TextCol xs) =
     (if list_all (\<lambda>x. x = None) xs then Inr (map (\<lambda>_. NaN) xs) else Inl TypeError)"
| "numeric_values (TimeCol xs) = Inl NotModelled"

text \<open>\<^verbatim>\<open>df[c].f() if c in df.columns else 0.0\<close>\<close>

definition col_stat :: "(fl list \<Rightarrow> fl) \<Rightarrow> 'a dataframe_scheme \<Rightarrow> string \<Rightarrow> error + fl" where
  "col_stat f df c = (case getcol df c of None \<Rightarrow> Inr (F 0) | Some col \<Rightarrow> reduce_col f col)"

section \<open>Grouping (\<^verbatim>\<open>df.groupby\<close>)\<close>

text \<open>
  A group key is a value of the key column; \<^verbatim>\<open>groupby\<close> drops the rows whose key is
  missing and orders the groups by ascending key.
\<close>

datatype label = LNum real | LStr string | LTime int

fun key_labels :: "column \<Rightarrow> label option list" where
  "key_labels (NumCol xs) = map (\<lambda>x. case x of NaN \<Rightarrow> None | F r \<Rightarrow> Some (LNum r)) xs"
| "key_labels (TextCol xs) = map (map_option LStr) xs"
| "key_labels (TimeCol xs) = map (map_option LTime) xs"

definition sorted_keys :: "('k::linorder) option list \<Rightarrow> 'k list" where
  "sorted_keys ks = sort (remdups (concat (map (\<lambda>k. case k of None \<Rightarrow> [] | Some x \<Rightarrow> [x]) ks)))"

fun group_labels :: "column \<Rightarrow> label list" where
  "group_labels (NumCol xs) =
     map LNum (sorted_keys (map (\<lambda>x. case x of NaN \<Rightarrow> None | F r \<Rightarrow> Some r) xs))"
| "group_labels (TextCol xs) = map LStr (sorted_keys xs)"
| "group_labels (TimeCol xs) = map LTime (sorted_keys xs)"

text \<open>The entries of a value column in the rows of one group.\<close>

definition group_rows :: "column \<Rightarrow> label \<Rightarrow> 'v list \<Rightarrow> 'v list" where
  "group_rows kc l vs = map snd (filter (\<lambda>p. fst p = Some l) (zip (key_labels kc) vs))"

text \<open>\<^verbatim>\<open>df.groupby(k)[c].mean()\<close>: a series indexed by the group keys.\<close>

definition groupby_mean :: "column \<Rightarrow> column \<Rightarrow> error + (label \<times> fl) list" where
  "groupby_mean kc vc =
     bind_res (numeric_values vc) (\<lambda>vs.
       Inr (map (\<lambda>l. (l, mean_fl (group_rows kc l vs))) (group_labels kc)))"

text \<open>
  \<^verbatim>\<open>Series.idxmax()\<close>: the index of the first occurrence of the maximum, \<^verbatim>\<open>NaN\<close>
  skipped. It raises \<^verbatim>\<open>ValueError\<close> on an empty series, and (since pandas 3; earlier
  versions warn that it will) on a series of \<^verbatim>\<open>NaN\<close> only. \<^verbatim>\<open>Series.max()\<close> is
  the maximum of the valid entries, \<^verbatim>\<open>NaN\<close> when there is none.
\<close>

fun idxmax :: "(label \<times> fl) list \<Rightarrow> (label \<times> real) option" where
  "idxmax [] = None"
| "idxmax ((l, NaN) # xs) = idxmax xs"
| "idxmax ((l, F r) # xs) =
     (case idxmax xs of
        None \<Rightarrow> Some (l, r)
      | Some (l', r') \<Rightarrow> if r' > r then Some (l', r') else Some (l, r))"

definition series_max :: "(label \<times> fl) list \<Rightarrow> fl" where
  "series_max xs = (case valid (map snd xs) of [] \<Rightarrow> NaN | v # vs \<Rightarrow> F (fold max vs v))"

text \<open>
  The two blocks at the end of \<^verbatim>\<open>calculate_comprehensive_stats\<close> (for \<^verbatim>\<open>region\<close>
  and for \<^verbatim>\<open>age_group\<close>) are the same code with another column name.
\<close>

definition best_segment :: "'a dataframe_scheme \<Rightarrow> string \<Rightarrow> error + (label \<times> fl)" where
  "best_segment df seg =
     (case (getcol df seg, getcol df ''satisfaction'') of
        (Some kc, Some vc) \<Rightarrow>
          bind_res (groupby_mean kc vc) (\<lambda>seg_stats.
            case idxmax seg_stats of
              None \<Rightarrow> Inl ValueError
            | Some (l, r) \<Rightarrow> Inr (l, series_max seg_stats))
      | _ \<Rightarrow> Inr (LStr ''N/A'', F 0))"

section \<open>The statistics record (\<^verbatim>\<open>calculate_comprehensive_stats\<close>)\<close>

text \<open>
  \<^verbatim>\<open>date_range\<close>: the f-string of the least and the greatest timestamp's dates, or
  \<^verbatim>\<open>"N/A"\<close>. A timestamp is its count of nanoseconds since the epoch, a date the
  count of days; the value keeps the two dates and leaves their rendering as text out.
  The least timestamp of a datetime column without valid entry is \<^verbatim>\<open>NaT\<close>, whose
  \<^verbatim>\<open>date()\<close> is \<^verbatim>\<open>NaT\<close>; the least entry of a column of another dtype is a float
  or a string, which has no \<^verbatim>\<open>date\<close> attribute.
\<close>

datatype date_range_value = DateNA | DateRange "int option" "int option"

definition date_of :: "int \<Rightarrow> int" where
  "date_of t = t div 86400000000000"

definition ts_min :: "int option list \<Rightarrow> int option" where
  "ts_min ts =
     (case concat (map (\<lambda>t. case t of None \<Rightarrow> [] | Some x \<Rightarrow> [x]) ts) of
        [] \<Rightarrow> None
      | v # vs \<Rightarrow> Some (fold min vs v))"

definition ts_max :: "int option list \<Rightarrow> int option" where
  "ts_max ts =
     (case concat (map (\<lambda>t. case t of None \<Rightarrow> [] | Some x \<Rightarrow> [x]) ts) of
        [] \<Rightarrow> None
      | v # vs \<Rightarrow> Some (fold max vs v))"

definition stat_date_range :: "'a dataframe_scheme \<Rightarrow> error + date_range_value" where
  "stat_date_range df =
     (case getcol df ''timestamp'' of
        None \<Rightarrow> Inr DateNA
      | Some (TimeCol ts) \<Rightarrow>
          Inr (DateRange (map_option date_of (ts_min ts)) (map_option date_of (ts_max ts)))
      | Some _ \<Rightarrow> Inl AttributeError)"

text \<open>
  \<^verbatim>\<open>len(df[df[c] >= 9]) if c in df.columns else 0\<close>, and the same with the
  conjunction of two comparisons for the passives.
\<close>

definition count_where :: "(real \<Rightarrow> bool) \<Rightarrow> 'a dataframe_scheme \<Rightarrow> string \<Rightarrow> error + nat" where
  "count_where p df c =
     (case getcol df c of
        None \<Rightarrow> Inr 0
      | Some col \<Rightarrow> bind_res (compare_col p col) (\<lambda>m. Inr (mask_len m)))"

definition count_between :: "'a dataframe_scheme \<Rightarrow> string \<Rightarrow> error + nat" where
  "count_between df c =
     (case getcol df c of
        None \<Rightarrow> Inr 0
      | Some col \<Rightarrow>
          bind_res (compare_col (\<lambda>x. x \<ge> 7) col) (\<lambda>ge7.
          bind_res (compare_col (\<lambda>x. x \<le> 8) col) (\<lambda>le8.
            Inr (mask_len (map (\<lambda>p. fst p \<and> snd p) (zip ge7 le8))))))"

record statistics =
  total_responses :: nat
  date_range :: date_range_value
  completion_rate :: real
  avg_satisfaction :: fl
  avg_product_quality :: fl
  avg_customer_service :: fl
  avg_value :: fl
  avg_nps :: fl
  std_satisfaction :: fl
  std_product_quality :: fl
  std_customer_service :: fl
  nps_score :: real
  promoters :: nat
  passives :: nat
  detractors :: nat
  satisfaction_p25 :: fl
  satisfaction_median :: fl
  satisfaction_p75 :: fl
  best_region :: label
  best_region_score :: fl
  top_age_group :: label
  top_age_score :: fl

text \<open>
  The entries of the dict literal are evaluated in the order they are written, so the
  first one that raises decides the exception; the two segment blocks follow.
\<close>

definition calculate_comprehensive_stats :: "'a dataframe_scheme \<Rightarrow> error + statistics" where
  "calculate_comprehensive_stats df =
     bind_res (stat_date_range df) (\<lambda>dr.
     bind_res (col_stat mean_fl df ''satisfaction'') (\<lambda>avg_sat.
     bind_res (col_stat mean_fl df ''product_quality'') (\<lambda>avg_pq.
     bind_res (col_stat mean_fl df ''customer_service'') (\<lambda>avg_cs.
     bind_res (col_stat mean_fl df ''value_for_money'') (\<lambda>avg_v.
     bind_res (col_stat mean_fl df ''likelihood_to_recommend'') (\<lambda>avg_n.
     bind_res (col_stat std_fl df ''satisfaction'') (\<lambda>std_sat.
     bind_res (col_stat std_fl df ''product_quality'') (\<lambda>std_pq.
     bind_res (col_stat std_fl df ''customer_service'') (\<lambda>std_cs.
     bind_res (calculate_nps df ''likelihood_to_recommend'') (\<lambda>nps.
     bind_res (count_where (\<lambda>x. x \<ge> 9) df ''likelihood_to_recommend'') (\<lambda>pro.
     bind_res (count_between df ''likelihood_to_recommend'') (\<lambda>pas.
     bind_res (count_where (\<lambda>x. x \<le> 6) df ''likelihood_to_recommend'') (\<lambda>det.
     bind_res (col_stat (quantile_fl (1/4)) df ''satisfaction'') (\<lambda>p25.
     bind_res (col_stat median_fl df ''satisfaction'') (\<lambda>med.
     bind_res (col_stat (quantile_fl (3/4)) df ''satisfaction'') (\<lambda>p75.
     bind_res (best_segment df ''region'') (\<lambda>reg.
     bind_res (best_segment df ''age_group'') (\<lambda>age.
       Inr \<lparr>total_responses = nrows df,
            date_range = dr,
            completion_rate = calculate_completion_rate df,
            avg_satisfaction = avg_sat,
            avg_product_quality = avg_pq,
            avg_customer_service = avg_cs,
            avg_value = avg_v,
            avg_nps = avg_n,
            std_satisfaction = std_sat,
            std_product_quality = std_pq,
            std_customer_service = std_cs,
            nps_score = nps,
            promoters = pro,
            passives = pas,
            detractors = det,
            satisfaction_p25 = p25,
            satisfaction_median = med,
            satisfaction_p75 = p75,
            best_region = fst reg,
            best_region_score = snd reg,
            top_age_group = fst age,
            top_age_score = snd age\<rparr>))))))))))))))))))"

section \<open>Segment tables (\<^verbatim>\<open>analyze_by_segment\<close>)\<close>

definition numeric_cols :: "string list" where
  "numeric_cols = [''satisfaction'', ''product_quality'', ''customer_service'',
                   ''value_for_money'', ''likelihood_to_recommend'']"

text \<open>
  \<^verbatim>\<open>round(2)\<close>: to two decimals, a tie to the even neighbour; \<^verbatim>\<open>NaN\<close> stays.
\<close>

definition round_half_even :: "real \<Rightarrow> int" where
  "round_half_even x =
     (let f = \<lfloor>x\<rfloor>; d = x - of_int f
      in if d < 1/2 then f else if d > 1/2 then f + 1 else if even f then f else f + 1)"

fun round2 :: "fl \<Rightarrow> fl" where
  "round2 NaN = NaN"
| "round2 (F r) = F (of_int (round_half_even (r * 100)) / 100)"

text \<open>
  One cell triple of the result: the aggregates \<^verbatim>\<open>mean\<close>, \<^verbatim>\<open>std\<close> and
  \<^verbatim>\<open>count\<close> of one metric in one group. \<^verbatim>\<open>count\<close> is the number of entries of
  the metric in the group that are not missing.
\<close>

record agg =
  agg_mean :: fl
  agg_std :: fl
  agg_count :: nat

definition agg_group :: "fl list \<Rightarrow> agg" where
  "agg_group vs =
     \<lparr>agg_mean = round2 (mean_fl vs), agg_std = round2 (std_fl vs),
      agg_count = length (valid vs)\<rparr>"

text \<open>
  \<^verbatim>\<open>df.groupby(k)[available_cols]\<close>: the entries of each available metric, in the
  order of \<^verbatim>\<open>available_cols\<close>.
\<close>

fun metric_values :: "'a dataframe_scheme \<Rightarrow> string list \<Rightarrow> error + (string \<times> fl list) list" where
  "metric_values df [] = Inr []"
| "metric_values df (c # cs) =
     (case getcol df c of
        None \<Rightarrow> Inl KeyError
      | Some col \<Rightarrow>
          bind_res (numeric_values col) (\<lambda>vs.
          bind_res (metric_values df cs) (\<lambda>rest. Inr ((c, vs) # rest))))"

type_synonym segment_table = "(label \<times> (string \<times> agg) list) list"

text \<open>
  The result has one row per group, in group order, and in each row one triple per
  available metric. \<^verbatim>\<open>pd.DataFrame()\<close>, the empty table, has no row.
\<close>

definition analyze_by_segment :: "'a dataframe_scheme \<Rightarrow> string \<Rightarrow> error + segment_table" where
  "analyze_by_segment df segment_column =
     (let available_cols = filter (\<lambda>c. c \<in> set (columns df)) numeric_cols
      in if available_cols = [] then Inr []
         else case getcol df segment_column of
                None \<Rightarrow> Inl KeyError
              | Some kc \<Rightarrow>
                  bind_res (metric_values df available_cols) (\<lambda>ms.
                    Inr (map (\<lambda>l. (l, map (\<lambda>m. (fst m, agg_group (group_rows kc l (snd m)))) ms))
                             (group_labels kc))))"

section \<open>Quantities of the specification and sample frames\<close>

text \<open>The cell counts the specification names in its definition of the completion rate.\<close>

definition missing_cell_count :: "'a dataframe_scheme \<Rightarrow> nat" where
  "missing_cell_count df = sum_list (map (\<lambda>nc. null_count (snd nc)) (cols df))"

definition total_cell_count :: "'a dataframe_scheme \<Rightarrow> nat" where
  "total_cell_count df = nrows df * length (columns df)"

text \<open>Three feedback records, one of them missing.\<close>

definition survey3 :: dataframe where
  "survey3 = \<lparr>nrows = 3,
              cols = [(''feedback'', TextCol [Some ''Love the product'', None, Some ''Price is too high''])]\<rparr>"

text \<open>Scenario 1 of the specification: ten recommendation scores.\<close>

definition scenario1 :: dataframe where
  "scenario1 = \<lparr>nrows = 10,
     cols = [(''likelihood_to_recommend'',
              NumCol [F 9, F 9, F 9, F 8, F 8, F 7, F 6, F 5, F 3, F 2])]\<rparr>"

text \<open>Two records and two columns, one of the four cells missing.\<close>

definition partial4 :: dataframe where
  "partial4 = \<lparr>nrows = 2,
     cols = [(''satisfaction'', NumCol [F 4, NaN]), (''region'', TextCol [Some ''North'', Some ''East''])]\<rparr>"

text \<open>One record with a satisfaction score and nothing else.\<close>

definition satisfaction_only :: dataframe where
  "satisfaction_only = \<lparr>nrows = 1, cols = [(''satisfaction'', NumCol [F 5])]\<rparr>"

text \<open>
  The sum, over the rows of a segment table, of the \<^verbatim>\<open>count\<close> of one metric; the
  distinct values of a segment column; and the condition that the metric columns that
  are present hold numbers.
\<close>

definition count_total :: "segment_table \<Rightarrow> string \<Rightarrow> nat" where
  "count_total tbl c =
     sum_list (map (\<lambda>row. case map_of (snd row) c of None \<Rightarrow> 0 | Some a \<Rightarrow> agg_count a) tbl)"

definition segment_values :: "column \<Rightarrow> label set" where
  "segment_values kc = {l. Some l \<in> set (key_labels kc)}"

definition metrics_numeric :: "'a dataframe_scheme \<Rightarrow> bool" where
  "metrics_numeric df \<longleftrightarrow>
     list_all (\<lambda>c. case getcol df c of None \<Rightarrow> True | Some col \<Rightarrow> (case col of NumCol xs \<Rightarrow> True | _ \<Rightarrow> False))
       numeric_cols"

text \<open>Sample frames with a region column; in the second a score is missing.\<close>

definition regions3 :: dataframe where
  "regions3 = \<lparr>nrows = 3,
     cols = [(''region'', TextCol [Some ''North'', Some ''East'', Some ''North'']),
             (''satisfaction'', NumCol [F 4, F 5, F 2])]\<rparr>"

definition gap2 :: dataframe where
  "gap2 = \<lparr>nrows = 2,
     cols = [(''region'', TextCol [Some ''A'', Some ''B'']),
             (''satisfaction'', NumCol [F 5, NaN])]\<rparr>"

definition gap2_table :: segment_table where
  "gap2_table =
     [(LStr ''A'', [(''satisfaction'', \<lparr>agg_mean = F 5, agg_std = NaN, agg_count = 1\<rparr>)]),
      (LStr ''B'', [(''satisfaction'', \<lparr>agg_mean = NaN, agg_std = NaN, agg_count = 0\<rparr>)])]"

text \<open>
  Two frames with a region column: one record without recommendation score, and no
  record at all.
\<close>

definition region_only :: dataframe where
  "region_only = \<lparr>nrows = 1,
     cols = [(''region'', TextCol [Some ''North'']), (''satisfaction'', NumCol [F 4])]\<rparr>"

definition empty_full :: dataframe where
  "empty_full = \<lparr>nrows = 0,
     cols = [(''region'', TextCol []), (''satisfaction'', NumCol []),
             (''likelihood_to_recommend'', NumCol [])]\<rparr>"

section \<open>Substring matching\<close>

lemma starts_with_iff: "starts_with w t \<longleftrightarrow> (\<exists>ss. t = w @ ss)"
  by (induction w t rule: starts_with.induct) auto

lemma py_in_iff: "py_in w t \<longleftrightarrow> spec_occurs w t"
proof (induction t)
  case Nil
  show ?case by (auto simp: starts_with_iff spec_occurs_def)
next
  case (Cons d t)
  have "spec_occurs w (d # t) \<longleftrightarrow> (\<exists>ss. d # t = w @ ss) \<or> spec_occurs w t"
  proof
    assume "spec_occurs w (d # t)"
    then obtain ps ss where e: "d # t = ps @ w @ ss" by (auto simp: spec_occurs_def)
    show "(\<exists>ss. d # t = w @ ss) \<or> spec_occurs w t"
    proof (cases ps)
      case Nil
      with e show ?thesis by auto
    next
      case (Cons p ps')
      with e have "t = ps' @ w @ ss" by simp
      then show ?thesis by (auto simp: spec_occurs_def)
    qed
  next
    assume "(\<exists>ss. d # t = w @ ss) \<or> spec_occurs w t"
    then show "spec_occurs w (d # t)"
    proof
      assume "\<exists>ss. d # t = w @ ss"
      then obtain ss where "d # t = [] @ w @ ss" by auto
      then show ?thesis unfolding spec_occurs_def by blast
    next
      assume "spec_occurs w t"
      then obtain ps ss where "t = ps @ w @ ss" by (auto simp: spec_occurs_def)
      then have "d # t = (d # ps) @ w @ ss" by simp
      then show ?thesis unfolding spec_occurs_def by blast
    qed
  qed
  with Cons show ?case by (simp add: starts_with_iff)
qed

lemma match_count_spec:
  assumes "distinct ws"
  shows "match_count ws t = spec_match_count ws t"
proof -
  have s: "{w \<in> set ws. spec_occurs w t} = set (filter (\<lambda>w. py_in w t) ws)"
    by (auto simp: py_in_iff)
  have d: "distinct (filter (\<lambda>w. py_in w t) ws)"
    using assms by simp
  show ?thesis
    unfolding match_count_def spec_match_count_def s by (rule distinct_card [OF d, symmetric])
qed

lemma distinct_positive_words: "distinct positive_words"
  by (simp add: positive_words_def)

lemma distinct_negative_words: "distinct negative_words"
  by (simp add: negative_words_def)

section \<open>Sentiment: the classification rule\<close>

lemmas sentiment_eval =
  classify_sentiment_def lower_def lower_char_def match_count_def positive_words_def
  negative_words_def Let_def

text \<open>
  Claim C9. A missing feedback value classifies as neutral. Otherwise the record is
  positive when more positive-list words than negative-list words occur as substrings
  of the lower-cased text, negative when more negative-list words occur, and neutral
  when the two counts are equal. The text "Excellent product quality!" has one positive
  match and no negative one and classifies positive; "Could be better" has no match and
  classifies neutral.
\<close>

theorem classify_sentiment_rule:
  "classify_sentiment None = Neutral
   \<and> (\<forall>s. classify_sentiment (Some s) =
          (if spec_match_count positive_words (lower s) > spec_match_count negative_words (lower s)
           then Positive
           else if spec_match_count negative_words (lower s) > spec_match_count positive_words (lower s)
           then Negative
           else Neutral))
   \<and> match_count positive_words (lower ''Excellent product quality!'') = 1
   \<and> match_count negative_words (lower ''Excellent product quality!'') = 0
   \<and> classify_sentiment (Some ''Excellent product quality!'') = Positive
   \<and> match_count positive_words (lower ''Could be better'') = 0
   \<and> match_count negative_words (lower ''Could be better'') = 0
   \<and> classify_sentiment (Some ''Could be better'') = Neutral"
proof -
  have a: "classify_sentiment None = Neutral"
    by (simp add: classify_sentiment_def)
  have b: "classify_sentiment (Some s) =
          (if spec_match_count positive_words (lower s) > spec_match_count negative_words (lower s)
           then Positive
           else if spec_match_count negative_words (lower s) > spec_match_count positive_words (lower s)
           then Negative
           else Neutral)" for s
    by (simp add: classify_sentiment_def Let_def
        match_count_spec [OF distinct_positive_words] match_count_spec [OF distinct_negative_words])
  have c: "match_count positive_words (lower ''Excellent product quality!'') = 1"
    by (simp add: sentiment_eval)
  have d: "match_count negative_words (lower ''Excellent product quality!'') = 0"
    by (simp add: sentiment_eval)
  have e: "classify_sentiment (Some ''Excellent product quality!'') = Positive"
    by (simp add: sentiment_eval)
  have f: "match_count positive_words (lower ''Could be better'') = 0"
    by (simp add: sentiment_eval)
  have g: "match_count negative_words (lower ''Could be better'') = 0"
    by (simp add: sentiment_eval)
  have h: "classify_sentiment (Some ''Could be better'') = Neutral"
    by (simp add: sentiment_eval)
  from a b c d e f g h show ?thesis by blast
qed

lemma not_satisfied_contains_satisfied:
  assumes "spec_occurs ''not satisfied'' t"
  shows "spec_occurs ''satisfied'' t"
proof -
  from assms obtain ps ss where "t = ps @ ''not satisfied'' @ ss"
    by (auto simp: spec_occurs_def)
  then have "t = (ps @ ''not '') @ ''satisfied'' @ ss" by simp
  then show ?thesis unfolding spec_occurs_def by blast
qed

text \<open>
  Claim C10. A text whose lower-cased form contains "not satisfied" also contains the
  positive word "satisfied". So a feedback that contains "not satisfied" and no other
  word of either list has one positive and one negative match, and is neutral.
\<close>

theorem not_satisfied_is_neutral:
  assumes "spec_occurs ''not satisfied'' (lower s)"
    and "\<forall>w \<in> set (positive_words @ negative_words).
           w \<noteq> ''satisfied'' \<and> w \<noteq> ''not satisfied'' \<longrightarrow> \<not> spec_occurs w (lower s)"
  shows "spec_occurs ''satisfied'' (lower s)
         \<and> match_count positive_words (lower s) = 1
         \<and> match_count negative_words (lower s) = 1
         \<and> classify_sentiment (Some s) = Neutral"
proof -
  have sat: "py_in ''satisfied'' (lower s)"
    using not_satisfied_contains_satisfied [OF assms(1)] by (simp add: py_in_iff)
  have nsat: "py_in ''not satisfied'' (lower s)"
    using assms(1) by (simp add: py_in_iff)
  have others: "\<forall>w \<in> set (positive_words @ negative_words).
           w \<noteq> ''satisfied'' \<and> w \<noteq> ''not satisfied'' \<longrightarrow> \<not> py_in w (lower s)"
    using assms(2) by (simp add: py_in_iff)
  have p: "match_count positive_words (lower s) = 1"
    using sat others by (simp add: match_count_def positive_words_def negative_words_def)
  have n: "match_count negative_words (lower s) = 1"
    using nsat others by (simp add: match_count_def positive_words_def negative_words_def)
  show ?thesis
    using p n not_satisfied_contains_satisfied [OF assms(1)]
    by (simp add: classify_sentiment_def Let_def)
qed

theorem not_satisfied_is_neutral_witness:
  "spec_occurs ''not satisfied'' (lower ''Not satisfied'')
   \<and> match_count positive_words (lower ''Not satisfied'') = 1
   \<and> classify_sentiment (Some ''Not satisfied'') = Neutral"
proof -
  have h1: "spec_occurs ''not satisfied'' (lower ''Not satisfied'')"
    by (simp add: py_in_iff [symmetric] lower_def lower_char_def)
  have h2: "\<forall>w \<in> set (positive_words @ negative_words).
           w \<noteq> ''satisfied'' \<and> w \<noteq> ''not satisfied'' \<longrightarrow> \<not> spec_occurs w (lower ''Not satisfied'')"
    by (simp add: py_in_iff [symmetric] lower_def lower_char_def positive_words_def negative_words_def)
  from not_satisfied_is_neutral [OF h1 h2] h1 show ?thesis by simp
qed

section \<open>Sentiment: the summary of a frame\<close>

text \<open>
  Claim C3. Every engine operation is total on a dataset without rows; in particular
  the positive percentage of \<^verbatim>\<open>get_sentiment_analysis\<close> is well defined when a
  feedback column exists and the dataset has no rows. On the code that call divides by
  the row count and raises:
\<close>

theorem sentiment_empty_dataset_raises:
  "get_sentiment_analysis \<lparr>nrows = 0, cols = [(''feedback'', TextCol [])]\<rparr> = Inl ZeroDivisionError"
  by (simp add: get_sentiment_analysis_def getcol_def)

section \<open>Well-formed frames and the sentiment summary\<close>

lemma getcol_None_iff: "getcol df c = None \<longleftrightarrow> c \<notin> set (columns df)"
  by (simp add: getcol_def columns_def map_of_eq_None_iff)

lemma wf_col_len:
  assumes "wf_df df" and "getcol df c = Some col"
  shows "col_len col = nrows df"
proof -
  from assms(2) have "(c, col) \<in> set (cols df)"
    by (auto simp: getcol_def dest: map_of_SomeD)
  with assms(1) show ?thesis
    by (auto simp: wf_df_def list_all_iff)
qed

lemma count_sentiments:
  "count_list xs Positive + count_list xs Neutral + count_list xs Negative = length xs"
proof (induction xs)
  case Nil
  show ?case by simp
next
  case (Cons x xs)
  then show ?case by (cases x) simp_all
qed

lemma length_classify_column: "length (classify_column c) = col_len c"
  by (cases c) simp_all

text \<open>
  Claim C5. \<^verbatim>\<open>get_sentiment_analysis\<close> returns \<^verbatim>\<open>None\<close> if and only if the frame has
  no feedback column; with a feedback column and at least one record it returns a summary
  whose positive, neutral and negative counts add up to the number of records.
\<close>

theorem sentiment_absent_iff_counts_sum:
  "(get_sentiment_analysis df = Inr None \<longleftrightarrow> ''feedback'' \<notin> set (columns df))
   \<and> (wf_df df \<and> ''feedback'' \<in> set (columns df) \<and> nrows df > 0 \<longrightarrow>
        (\<exists>r. get_sentiment_analysis df = Inr (Some r)
             \<and> positive r + neutral r + negative r = nrows df))"
proof (intro conjI impI)
  show "get_sentiment_analysis df = Inr None \<longleftrightarrow> ''feedback'' \<notin> set (columns df)"
    by (auto simp: get_sentiment_analysis_def Let_def getcol_None_iff [symmetric]
        split: option.splits)
next
  assume a: "wf_df df \<and> ''feedback'' \<in> set (columns df) \<and> nrows df > 0"
  then obtain c where c: "getcol df ''feedback'' = Some c"
    using getcol_None_iff [of df "''feedback''"] by auto
  have len: "length (classify_column c) = nrows df"
    using a c by (simp add: length_classify_column wf_col_len)
  show "\<exists>r. get_sentiment_analysis df = Inr (Some r)
             \<and> positive r + neutral r + negative r = nrows df"
    using a c len count_sentiments [of "classify_column c"]
    by (simp add: get_sentiment_analysis_def Let_def)
qed

theorem sentiment_absent_iff_counts_sum_witness:
  "wf_df survey3 \<and> ''feedback'' \<in> set (columns survey3) \<and> nrows survey3 > 0
   \<and> get_sentiment_analysis survey3
       = Inr (Some \<lparr>positive = 1, neutral = 2, negative = 0, positive_pct = 100 / 3\<rparr>)"
proof -
  have h: "wf_df survey3 \<and> ''feedback'' \<in> set (columns survey3) \<and> nrows survey3 > 0"
    by (simp add: survey3_def wf_df_def columns_def)
  have v: "get_sentiment_analysis survey3
       = Inr (Some \<lparr>positive = 1, neutral = 2, negative = 0, positive_pct = 100 / 3\<rparr>)"
    by (simp add: survey3_def get_sentiment_analysis_def getcol_def sentiment_eval)
  from sentiment_absent_iff_counts_sum [of survey3] h v show ?thesis by simp
qed

section \<open>Net Promoter Score: formula and range\<close>

lemma mask_len_numeric:
  "mask_len (map (\<lambda>x. case x of NaN \<Rightarrow> False | F r \<Rightarrow> p r) xs) = length (filter p (valid xs))"
proof (induction xs)
  case Nil
  show ?case by (simp add: mask_len_def)
next
  case (Cons x xs)
  then show ?case by (cases x) (simp_all add: mask_len_def)
qed

lemma length_valid_le: "length (valid xs) \<le> length xs"
proof (induction xs)
  case Nil
  show ?case by simp
next
  case (Cons x xs)
  then show ?case by (cases x) simp_all
qed

lemma promoters_detractors_le:
  "length (filter (\<lambda>x. 9 \<le> x) vs) + length (filter (\<lambda>x. x \<le> 6) vs) \<le> length (vs :: real list)"
  by (induction vs) auto

lemma pct_bounds:
  fixes x :: real
  assumes "- 1 \<le> x" and "x \<le> 1"
  shows "- 100 \<le> x * 100" and "x * 100 \<le> 100"
  using assms by simp_all

lemma nps_bounds:
  fixes p d n :: nat
  assumes "p + d \<le> n" and "0 < n"
  shows "- 100 \<le> real_of_int (int p - int d) / real n * 100"
    and "real_of_int (int p - int d) / real n * 100 \<le> 100"
proof -
  have n: "0 < real n" using assms(2) by simp
  have "- real n \<le> real_of_int (int p - int d)" using assms(1) by simp
  then have lo: "- 1 \<le> real_of_int (int p - int d) / real n"
    using n by (simp add: pos_le_divide_eq)
  have "real_of_int (int p - int d) \<le> real n" using assms(1) by simp
  then have hi: "real_of_int (int p - int d) / real n \<le> 1"
    using n by (simp add: pos_divide_le_eq)
  show "- 100 \<le> real_of_int (int p - int d) / real n * 100"
    by (rule pct_bounds(1) [OF lo hi])
  show "real_of_int (int p - int d) / real n * 100 \<le> 100"
    by (rule pct_bounds(2) [OF lo hi])
qed

text \<open>
  Claim C4. On a frame with a (numeric) score column, \<^verbatim>\<open>calculate_nps\<close> returns the
  number of scores of at least 9 minus the number of scores of at most 6, divided by the
  number of records, times 100; the value lies between -100 and 100; and on a frame
  without records it is exactly 0.
\<close>

theorem calculate_nps_formula_and_range:
  assumes "wf_df df" and "getcol df c = Some (NumCol xs)"
  shows "(nrows df > 0 \<longrightarrow>
            calculate_nps df c =
              Inr ((real (length (filter (\<lambda>x. 9 \<le> x) (valid xs)))
                     - real (length (filter (\<lambda>x. x \<le> 6) (valid xs)))) / real (nrows df) * 100))
         \<and> (nrows df = 0 \<longrightarrow> calculate_nps df c = Inr 0)
         \<and> (\<exists>v. calculate_nps df c = Inr v \<and> - 100 \<le> v \<and> v \<le> 100)"
proof -
  let ?p = "length (filter (\<lambda>x. 9 \<le> x) (valid xs))"
  let ?d = "length (filter (\<lambda>x. x \<le> 6) (valid xs))"
  have len: "length xs = nrows df"
    using wf_col_len [OF assms] by simp
  have v: "calculate_nps df c = Inr (real_of_int (int ?p - int ?d) / real (nrows df) * 100)"
    if "nrows df > 0"
    using that assms(2)
    by (simp add: calculate_nps_def Let_def bind_res_def mask_len_numeric)
  have z: "calculate_nps df c = Inr 0" if "nrows df = 0"
    using that by (simp add: calculate_nps_def)
  have le: "?p + ?d \<le> nrows df"
    using promoters_detractors_le [of "valid xs"] length_valid_le [of xs] len by linarith
  have "\<exists>v. calculate_nps df c = Inr v \<and> - 100 \<le> v \<and> v \<le> 100"
  proof (cases "nrows df = 0")
    case True
    with z show ?thesis by simp
  next
    case False
    then have pos: "0 < nrows df" by simp
    show ?thesis
      using v [OF pos] nps_bounds [OF le pos] by simp
  qed
  moreover have "nrows df > 0 \<longrightarrow>
            calculate_nps df c =
              Inr ((real ?p - real ?d) / real (nrows df) * 100)"
    using v by simp
  ultimately show ?thesis using z by blast
qed

theorem calculate_nps_formula_and_range_witness:
  "wf_df scenario1
   \<and> getcol scenario1 ''likelihood_to_recommend''
       = Some (NumCol [F 9, F 9, F 9, F 8, F 8, F 7, F 6, F 5, F 3, F 2])
   \<and> nrows scenario1 > 0
   \<and> calculate_nps scenario1 ''likelihood_to_recommend'' = Inr (- 10)"
proof -
  have h1: "wf_df scenario1"
    by (simp add: scenario1_def wf_df_def columns_def)
  have h2: "getcol scenario1 ''likelihood_to_recommend''
       = Some (NumCol [F 9, F 9, F 9, F 8, F 8, F 7, F 6, F 5, F 3, F 2])"
    by (simp add: scenario1_def getcol_def)
  have h3: "nrows scenario1 > 0"
    by (simp add: scenario1_def)
  from calculate_nps_formula_and_range [OF h1 h2] h3
  have "calculate_nps scenario1 ''likelihood_to_recommend'' =
      Inr ((real (length (filter (\<lambda>x. 9 \<le> x) (valid [F 9, F 9, F 9, F 8, F 8, F 7, F 6, F 5, F 3, F 2])))
             - real (length (filter (\<lambda>x. x \<le> 6) (valid [F 9, F 9, F 9, F 8, F 8, F 7, F 6, F 5, F 3, F 2]))))
            / real (nrows scenario1) * 100)"
    by blast
  then have "calculate_nps scenario1 ''likelihood_to_recommend'' = Inr (- 10)"
    by (simp add: scenario1_def)
  with h1 h2 h3 show ?thesis by blast
qed

section \<open>Completion rate: value and range\<close>

lemma null_count_le: "null_count c \<le> col_len c"
  by (cases c) simp_all

lemma missing_le_cells:
  assumes "list_all (\<lambda>nc. col_len (snd nc) = n) cs"
  shows "sum_list (map (\<lambda>nc. null_count (snd nc)) cs) \<le> n * length cs"
  using assms
proof (induction cs)
  case Nil
  show ?case by simp
next
  case (Cons a cs)
  have "null_count (snd a) \<le> n"
    using Cons.prems null_count_le [of "snd a"] by simp
  moreover have "sum_list (map (\<lambda>nc. null_count (snd nc)) cs) \<le> n * length cs"
    using Cons by simp
  ultimately show ?case by simp
qed

text \<open>
  Claim C1 says that the completion rate of a dataset without rows is 100. The guard at
  the head of \<^verbatim>\<open>_calculate_completion_rate\<close> returns 0 there.
\<close>

theorem completion_rate_empty_counterexample:
  "calculate_completion_rate \<lparr>nrows = 0, cols = [(''satisfaction'', NumCol [])]\<rparr> \<noteq> 100"
  by (simp add: calculate_completion_rate_def)

text \<open>
  Claim C1, amended. The completion rate is 0 on a frame without rows, 100 on a frame
  with rows and no column, and otherwise 100 minus the share of missing cells, in per
  cent; it always lies between 0 and 100.
\<close>

theorem completion_rate_amended:
  assumes "wf_df df"
  shows "calculate_completion_rate df =
           (if nrows df = 0 then 0
            else if columns df = [] then 100
            else 100 - real (missing_cell_count df) / real (total_cell_count df) * 100)
         \<and> 0 \<le> calculate_completion_rate df \<and> calculate_completion_rate df \<le> 100"
proof -
  have eq: "calculate_completion_rate df =
           (if nrows df = 0 then 0
            else if columns df = [] then 100
            else 100 - real (missing_cell_count df) / real (total_cell_count df) * 100)"
    by (simp add: calculate_completion_rate_def Let_def missing_cell_count_def total_cell_count_def)
  have le: "missing_cell_count df \<le> total_cell_count df"
    using assms missing_le_cells [of "nrows df" "cols df"]
    by (simp add: wf_df_def missing_cell_count_def total_cell_count_def columns_def)
  have rng: "0 \<le> 100 - real (missing_cell_count df) / real (total_cell_count df) * 100
             \<and> 100 - real (missing_cell_count df) / real (total_cell_count df) * 100 \<le> 100"
    if "0 < total_cell_count df"
  proof -
    have hi: "real (missing_cell_count df) / real (total_cell_count df) \<le> 1"
      using le that by (simp add: pos_divide_le_eq)
    have lo: "- 1 \<le> real (missing_cell_count df) / real (total_cell_count df)"
      by (rule order_trans [of _ 0]) simp_all
    have nn: "0 \<le> real (missing_cell_count df) / real (total_cell_count df) * 100"
      by (rule mult_nonneg_nonneg) simp_all
    from pct_bounds(2) [OF lo hi] nn show ?thesis by linarith
  qed
  have "0 \<le> calculate_completion_rate df \<and> calculate_completion_rate df \<le> 100"
  proof (cases "nrows df = 0 \<or> columns df = []")
    case True
    then show ?thesis using eq by auto
  next
    case False
    then have "0 < total_cell_count df" by (simp add: total_cell_count_def)
    from rng [OF this] False eq show ?thesis by simp
  qed
  with eq show ?thesis by simp
qed

theorem completion_rate_amended_witness:
  "wf_df partial4 \<and> calculate_completion_rate partial4 = 75"
proof -
  have h: "wf_df partial4"
    by (simp add: partial4_def wf_df_def columns_def)
  from completion_rate_amended [OF h]
  have "calculate_completion_rate partial4 =
           (if nrows partial4 = 0 then 0
            else if columns partial4 = [] then 100
            else 100 - real (missing_cell_count partial4) / real (total_cell_count partial4) * 100)"
    by blast
  then have "calculate_completion_rate partial4 = 75"
    by (simp add: partial4_def missing_cell_count_def total_cell_count_def columns_def)
  with h show ?thesis by simp
qed

section \<open>The statistics record without a recommendation column\<close>

text \<open>
  Claim C2. \<^verbatim>\<open>calculate_comprehensive_stats\<close> succeeds when the column
  \<^verbatim>\<open>likelihood_to_recommend\<close> is absent, with an NPS of 0 and counts of 0. On the
  code the entry \<^verbatim>\<open>nps_score\<close> calls \<^verbatim>\<open>calculate_nps\<close> without the column test
  its neighbours have, and on a frame with a record the call raises:
\<close>

theorem stats_without_recommend_column_raises:
  "calculate_comprehensive_stats satisfaction_only = Inl KeyError"
  by (simp add: calculate_comprehensive_stats_def satisfaction_only_def bind_res_def
      stat_date_range_def col_stat_def getcol_def calculate_nps_def)

section \<open>Grouping: labels and group sizes\<close>

lemma set_sorted_keys: "set (sorted_keys ks) = {k. Some k \<in> set ks}"
  by (auto simp: sorted_keys_def split: option.splits)

lemma mem_sorted_keys: "k \<in> set (sorted_keys ks) \<longleftrightarrow> Some k \<in> set ks"
  by (simp add: set_sorted_keys)

lemma distinct_sorted_keys: "distinct (sorted_keys ks)"
  by (simp add: sorted_keys_def)

lemma sorted_sorted_keys: "sorted (sorted_keys ks)"
  by (simp add: sorted_keys_def)

lemma num_raw_key_iff:
  "Some r \<in> set (map (\<lambda>x. case x of NaN \<Rightarrow> None | F r \<Rightarrow> Some r) xs) \<longleftrightarrow> F r \<in> set xs"
proof (induction xs)
  case Nil
  show ?case by simp
next
  case (Cons x xs)
  then show ?case by (cases x) simp_all
qed

lemma num_key_iff:
  "Some l \<in> set (map (\<lambda>x. case x of NaN \<Rightarrow> None | F r \<Rightarrow> Some (LNum r)) xs)
     \<longleftrightarrow> (\<exists>r. l = LNum r \<and> F r \<in> set xs)"
proof (induction xs)
  case Nil
  show ?case by simp
next
  case (Cons x xs)
  show ?case
  proof (cases x)
    case NaN
    with Cons show ?thesis by simp
  next
    case (F q)
    with Cons show ?thesis by (cases l) auto
  qed
qed

lemma opt_key_iff:
  assumes "inj f"
  shows "Some l \<in> set (map (map_option f) xs) \<longleftrightarrow> (\<exists>s. l = f s \<and> Some s \<in> set xs)"
proof (induction xs)
  case Nil
  show ?case by simp
next
  case (Cons x xs)
  show ?case
  proof (cases x)
    case None
    with Cons show ?thesis by simp
  next
    case (Some q)
    with Cons show ?thesis by auto
  qed
qed

lemma mem_group_labels: "l \<in> set (group_labels kc) \<longleftrightarrow> Some l \<in> set (key_labels kc)"
proof (cases kc)
  case (NumCol xs)
  have "l \<in> set (group_labels kc) \<longleftrightarrow>
        (\<exists>r. l = LNum r \<and> r \<in> set (sorted_keys (map (\<lambda>x. case x of NaN \<Rightarrow> None | F r \<Rightarrow> Some r) xs)))"
    unfolding NumCol group_labels.simps set_map by blast
  also have "\<dots> \<longleftrightarrow> (\<exists>r. l = LNum r \<and> F r \<in> set xs)"
    unfolding mem_sorted_keys num_raw_key_iff by (rule refl)
  also have "\<dots> \<longleftrightarrow> Some l \<in> set (key_labels kc)"
    unfolding NumCol key_labels.simps num_key_iff by (rule refl)
  finally show ?thesis .
next
  case (TextCol xs)
  have i: "inj LStr" by (simp add: inj_on_def)
  have "l \<in> set (group_labels kc) \<longleftrightarrow> (\<exists>s. l = LStr s \<and> s \<in> set (sorted_keys xs))"
    unfolding TextCol group_labels.simps set_map by blast
  also have "\<dots> \<longleftrightarrow> (\<exists>s. l = LStr s \<and> Some s \<in> set xs)"
    unfolding mem_sorted_keys by (rule refl)
  also have "\<dots> \<longleftrightarrow> Some l \<in> set (key_labels kc)"
    unfolding TextCol key_labels.simps opt_key_iff [OF i] by (rule refl)
  finally show ?thesis .
next
  case (TimeCol xs)
  have i: "inj LTime" by (simp add: inj_on_def)
  have "l \<in> set (group_labels kc) \<longleftrightarrow> (\<exists>s. l = LTime s \<and> s \<in> set (sorted_keys xs))"
    unfolding TimeCol group_labels.simps set_map by blast
  also have "\<dots> \<longleftrightarrow> (\<exists>s. l = LTime s \<and> Some s \<in> set xs)"
    unfolding mem_sorted_keys by (rule refl)
  also have "\<dots> \<longleftrightarrow> Some l \<in> set (key_labels kc)"
    unfolding TimeCol key_labels.simps opt_key_iff [OF i] by (rule refl)
  finally show ?thesis .
qed

lemma set_group_labels: "set (group_labels kc) = segment_values kc"
  unfolding segment_values_def using mem_group_labels [of _ kc] by blast

lemma distinct_group_labels: "distinct (group_labels kc)"
  by (cases kc) (simp_all add: distinct_map distinct_sorted_keys inj_on_def)

lemma length_group_labels: "length (group_labels kc) = card (segment_values kc)"
  using distinct_card [OF distinct_group_labels [of kc]] by (simp add: set_group_labels)

lemma length_key_labels: "length (key_labels kc) = col_len kc"
  by (cases kc) simp_all

lemma key_labels_no_missing:
  assumes "null_count kc = 0"
  shows "None \<notin> set (key_labels kc)"
proof (cases kc)
  case (NumCol xs)
  with assms have "NaN \<notin> set xs" by (auto simp: filter_empty_conv)
  with NumCol show ?thesis by (auto split: fl.splits)
next
  case (TextCol xs)
  with assms have "None \<notin> set xs" by (auto simp: filter_empty_conv)
  with TextCol show ?thesis by auto
next
  case (TimeCol xs)
  with assms have "None \<notin> set xs" by (auto simp: filter_empty_conv)
  with TimeCol show ?thesis by auto
qed

lemma sum_one_hit:
  assumes "distinct ls" and "a \<in> set ls"
  shows "sum_list (map (\<lambda>l. if Some a = Some l then 1 else 0) ls) = (1::nat)"
  using assms
proof (induction ls)
  case Nil
  then show ?case by simp
next
  case (Cons x ls)
  show ?case
  proof (cases "a = x")
    case True
    with Cons.prems have "a \<notin> set ls" by simp
    then have "sum_list (map (\<lambda>l. if Some a = Some l then 1 else 0) ls) = (0::nat)"
      by (induction ls) auto
    with True show ?thesis by simp
  next
    case False
    with Cons show ?thesis by simp
  qed
qed

lemma group_sizes_sum:
  assumes "distinct ls" and "\<forall>p \<in> set zs. \<exists>a \<in> set ls. fst p = Some a"
  shows "sum_list (map (\<lambda>l. length (filter (\<lambda>p. fst p = Some l) zs)) ls) = length zs"
  using assms(2)
proof (induction zs)
  case Nil
  show ?case by simp
next
  case (Cons z zs)
  from Cons.prems obtain a where a: "a \<in> set ls" "fst z = Some a" by auto
  have pt: "length (filter (\<lambda>p. fst p = Some l) (z # zs))
        = (if Some a = Some l then 1 else 0) + length (filter (\<lambda>p. fst p = Some l) zs)" for l
    using a(2) by simp
  have "sum_list (map (\<lambda>l. length (filter (\<lambda>p. fst p = Some l) (z # zs))) ls)
        = sum_list (map (\<lambda>l. (if Some a = Some l then 1 else 0)
                               + length (filter (\<lambda>p. fst p = Some l) zs)) ls)"
    by (simp only: pt)
  also have "\<dots> = sum_list (map (\<lambda>l. if Some a = Some l then 1 else 0) ls)
          + sum_list (map (\<lambda>l. length (filter (\<lambda>p. fst p = Some l) zs)) ls)"
    by (rule sum_list_addf)
  also have "\<dots> = 1 + length zs"
    using Cons sum_one_hit [OF assms(1) a(1)] by simp
  finally show ?case by simp
qed

lemma valid_no_nan: "NaN \<notin> set xs \<Longrightarrow> length (valid xs) = length xs"
proof (induction xs)
  case Nil
  show ?case by simp
next
  case (Cons x xs)
  then show ?case by (cases x) simp_all
qed

lemma group_rows_subset: "set (group_rows kc l vs) \<subseteq> set vs"
  by (auto simp: group_rows_def dest: set_zip_rightD)

lemma group_counts_sum:
  assumes "null_count kc = 0" and "col_len kc = length vs" and "NaN \<notin> set vs"
  shows "sum_list (map (\<lambda>l. length (valid (group_rows kc l vs))) (group_labels kc)) = length vs"
proof -
  let ?zs = "zip (key_labels kc) vs"
  have cover: "\<forall>p \<in> set ?zs. \<exists>a \<in> set (group_labels kc). fst p = Some a"
  proof
    fix p assume p: "p \<in> set ?zs"
    obtain k v where kv: "p = (k, v)" by (cases p)
    with p have k: "fst p \<in> set (key_labels kc)" by (auto dest: set_zip_leftD)
    with key_labels_no_missing [OF assms(1)] obtain a where "fst p = Some a"
      by (cases "fst p") auto
    with k show "\<exists>a \<in> set (group_labels kc). fst p = Some a"
      by (auto simp: set_group_labels segment_values_def)
  qed
  have "length (valid (group_rows kc l vs)) = length (filter (\<lambda>p. fst p = Some l) ?zs)" for l
    using group_rows_subset [of kc l vs] assms(3)
    by (subst valid_no_nan) (auto simp: group_rows_def)
  then have "sum_list (map (\<lambda>l. length (valid (group_rows kc l vs))) (group_labels kc))
      = sum_list (map (\<lambda>l. length (filter (\<lambda>p. fst p = Some l) ?zs)) (group_labels kc))"
    by simp
  also have "\<dots> = length ?zs"
    by (rule group_sizes_sum [OF distinct_group_labels cover])
  also have "\<dots> = length vs"
    using assms(2) by (simp add: length_key_labels)
  finally show ?thesis .
qed


section \<open>Segment tables: rows and counts\<close>

lemma metric_values_numeric:
  assumes "\<forall>c \<in> set cs. \<exists>xs. getcol df c = Some (NumCol xs)"
  shows "\<exists>ms. metric_values df cs = Inr ms \<and> map fst ms = cs
              \<and> (\<forall>m \<in> set ms. getcol df (fst m) = Some (NumCol (snd m)))"
  using assms
proof (induction cs)
  case Nil
  show ?case by simp
next
  case (Cons c cs)
  from Cons.prems obtain xs where xs: "getcol df c = Some (NumCol xs)" by auto
  from Cons obtain ms where ms: "metric_values df cs = Inr ms" "map fst ms = cs"
      "\<forall>m \<in> set ms. getcol df (fst m) = Some (NumCol (snd m))"
    by auto
  have "metric_values df (c # cs) = Inr ((c, xs) # ms)"
    using xs ms(1) by (simp add: bind_res_def)
  with xs ms show ?case by simp
qed

lemma map_of_mapped:
  assumes "distinct (map fst ms)" and "(c, vs) \<in> set ms"
  shows "map_of (map (\<lambda>m. (fst m, g m)) ms) c = Some (g (c, vs))"
  using assms
proof (induction ms)
  case Nil
  then show ?case by simp
next
  case (Cons m ms)
  show ?case
  proof (cases "m = (c, vs)")
    case True
    then show ?thesis by simp
  next
    case False
    with Cons.prems have in_ms: "(c, vs) \<in> set ms" by simp
    then have "c \<in> fst ` set ms" by force
    with Cons.prems(1) have "fst m \<noteq> c" by auto
    with Cons in_ms show ?thesis by simp
  qed
qed

lemma available_numeric:
  assumes "metrics_numeric df"
  shows "\<forall>c \<in> set (filter (\<lambda>c. c \<in> set (columns df)) numeric_cols). \<exists>xs. getcol df c = Some (NumCol xs)"
proof
  fix c assume c: "c \<in> set (filter (\<lambda>c. c \<in> set (columns df)) numeric_cols)"
  then have "c \<in> set numeric_cols" and "getcol df c \<noteq> None"
    by (simp_all add: getcol_None_iff)
  then obtain col where col: "getcol df c = Some col" by auto
  from assms \<open>c \<in> set numeric_cols\<close> col
  have "case col of NumCol xs \<Rightarrow> True | _ \<Rightarrow> False"
    by (auto simp: metrics_numeric_def list_all_iff)
  then obtain xs where "col = NumCol xs" by (cases col) simp_all
  with col show "\<exists>xs. getcol df c = Some (NumCol xs)" by simp
qed

lemma distinct_numeric_cols: "distinct numeric_cols"
  by (simp add: numeric_cols_def)

lemma analyze_table:
  assumes "metrics_numeric df" and "\<exists>c \<in> set numeric_cols. c \<in> set (columns df)"
    and "getcol df seg = Some kc"
  shows "\<exists>ms. analyze_by_segment df seg =
           Inr (map (\<lambda>l. (l, map (\<lambda>m. (fst m, agg_group (group_rows kc l (snd m)))) ms))
                    (group_labels kc))
         \<and> map fst ms = filter (\<lambda>c. c \<in> set (columns df)) numeric_cols
         \<and> (\<forall>m \<in> set ms. getcol df (fst m) = Some (NumCol (snd m)))"
proof -
  let ?av = "filter (\<lambda>c. c \<in> set (columns df)) numeric_cols"
  from assms(2) have ne: "?av \<noteq> []" by (auto simp: filter_empty_conv)
  from metric_values_numeric [OF available_numeric [OF assms(1)]]
  obtain ms where ms: "metric_values df ?av = Inr ms" "map fst ms = ?av"
      "\<forall>m \<in> set ms. getcol df (fst m) = Some (NumCol (snd m))"
    by blast
  have "analyze_by_segment df seg =
           Inr (map (\<lambda>l. (l, map (\<lambda>m. (fst m, agg_group (group_rows kc l (snd m)))) ms))
                    (group_labels kc))"
    using ne ms(1) assms(3) by (simp add: analyze_by_segment_def Let_def bind_res_def)
  with ms show ?thesis by blast
qed

lemma count_total_table:
  assumes "distinct (map fst ms)" and "(c, vs) \<in> set ms"
  shows "count_total (map (\<lambda>l. (l, map (\<lambda>m. (fst m, agg_group (group_rows kc l (snd m)))) ms)) ls) c
         = sum_list (map (\<lambda>l. length (valid (group_rows kc l vs))) ls)"
proof -
  have "map_of (map (\<lambda>m. (fst m, agg_group (group_rows kc l (snd m)))) ms) c
        = Some (agg_group (group_rows kc l vs))" for l
    using map_of_mapped [OF assms, of "\<lambda>m. agg_group (group_rows kc l (snd m))"] by simp
  then show ?thesis
    by (simp add: count_total_def comp_def agg_group_def)
qed

text \<open>
  Claim C7, amended. Without any of the five metric columns the result is the empty
  table. With at least one of them (all of them numeric) and a segment column without
  missing value, the result has one row per distinct value of the segment column, in
  group order, and for every metric column without missing value the counts of the rows
  add up to the number of records.
\<close>

theorem analyze_by_segment_rows_and_counts:
  "((\<forall>c \<in> set numeric_cols. c \<notin> set (columns df)) \<longrightarrow> analyze_by_segment df seg = Inr [])
   \<and> (wf_df df \<and> metrics_numeric df \<and> (\<exists>c \<in> set numeric_cols. c \<in> set (columns df))
        \<and> getcol df seg = Some kc \<and> null_count kc = 0 \<longrightarrow>
       (\<exists>tbl. analyze_by_segment df seg = Inr tbl
          \<and> map fst tbl = group_labels kc
          \<and> length tbl = card (segment_values kc)
          \<and> (\<forall>c xs. c \<in> set numeric_cols \<and> getcol df c = Some (NumCol xs) \<and> NaN \<notin> set xs
                \<longrightarrow> count_total tbl c = nrows df)))"
proof (intro conjI impI)
  assume "\<forall>c \<in> set numeric_cols. c \<notin> set (columns df)"
  then have "filter (\<lambda>c. c \<in> set (columns df)) numeric_cols = []"
    by (simp add: filter_empty_conv)
  then show "analyze_by_segment df seg = Inr []"
    by (simp add: analyze_by_segment_def)
next
  assume a: "wf_df df \<and> metrics_numeric df \<and> (\<exists>c \<in> set numeric_cols. c \<in> set (columns df))
        \<and> getcol df seg = Some kc \<and> null_count kc = 0"
  then have wf: "wf_df df" and kc: "getcol df seg = Some kc" and nomiss: "null_count kc = 0"
    by simp_all
  from a analyze_table [of df seg kc]
  obtain ms where ms: "analyze_by_segment df seg =
           Inr (map (\<lambda>l. (l, map (\<lambda>m. (fst m, agg_group (group_rows kc l (snd m)))) ms))
                    (group_labels kc))"
      "map fst ms = filter (\<lambda>c. c \<in> set (columns df)) numeric_cols"
      "\<forall>m \<in> set ms. getcol df (fst m) = Some (NumCol (snd m))"
    by blast
  let ?tbl = "map (\<lambda>l. (l, map (\<lambda>m. (fst m, agg_group (group_rows kc l (snd m)))) ms))
                    (group_labels kc)"
  have d: "distinct (map fst ms)"
    using ms(2) distinct_numeric_cols by simp
  have labels: "map fst ?tbl = group_labels kc"
    by (simp add: comp_def)
  have rows: "length ?tbl = card (segment_values kc)"
    by (simp add: length_group_labels)
  have counts: "count_total ?tbl c = nrows df"
    if c: "c \<in> set numeric_cols \<and> getcol df c = Some (NumCol xs) \<and> NaN \<notin> set xs" for c xs
  proof -
    from c have "c \<in> set (columns df)"
      using getcol_None_iff [of df c] by auto
    with c have "c \<in> set (map fst ms)" by (simp add: ms(2))
    then obtain vs where vs: "(c, vs) \<in> set ms" by auto
    with ms(3) c have "vs = xs" by force
    with vs have in_ms: "(c, xs) \<in> set ms" by simp
    have len: "length xs = nrows df"
      using wf_col_len [OF wf, of c "NumCol xs"] c by simp
    have klen: "col_len kc = length xs"
      using wf_col_len [OF wf kc] len by simp
    have "count_total ?tbl c = sum_list (map (\<lambda>l. length (valid (group_rows kc l xs))) (group_labels kc))"
      by (rule count_total_table [OF d in_ms])
    also have "\<dots> = length xs"
      using c by (intro group_counts_sum [OF nomiss klen]) simp
    finally show ?thesis using len by simp
  qed
  from ms(1) labels rows counts
  show "\<exists>tbl. analyze_by_segment df seg = Inr tbl
          \<and> map fst tbl = group_labels kc
          \<and> length tbl = card (segment_values kc)
          \<and> (\<forall>c xs. c \<in> set numeric_cols \<and> getcol df c = Some (NumCol xs) \<and> NaN \<notin> set xs
                \<longrightarrow> count_total tbl c = nrows df)"
    by blast
qed

text \<open>
  Claim C7 says that the counts of the rows add up to the number of records whenever
  the segment column has no missing value. The aggregate \<^verbatim>\<open>count\<close> counts the
  entries of the metric that are not missing, so a missing satisfaction score is counted
  in no row: two records, counts 1 and 0.
\<close>

theorem analyze_by_segment_counts_counterexample:
  "wf_df gap2
   \<and> getcol gap2 ''region'' = Some (TextCol [Some ''A'', Some ''B''])
   \<and> null_count (TextCol [Some ''A'', Some ''B'']) = 0
   \<and> ''satisfaction'' \<in> set numeric_cols \<and> ''satisfaction'' \<in> set (columns gap2)
   \<and> analyze_by_segment gap2 ''region'' = Inr gap2_table
   \<and> count_total gap2_table ''satisfaction'' = 1
   \<and> nrows gap2 = 2
   \<and> count_total gap2_table ''satisfaction'' \<noteq> nrows gap2"
proof -
  have a: "wf_df gap2"
    by (simp add: gap2_def wf_df_def columns_def)
  have b: "getcol gap2 ''region'' = Some (TextCol [Some ''A'', Some ''B''])"
    by (simp add: gap2_def getcol_def)
  have c: "null_count (TextCol [Some ''A'', Some ''B'']) = 0"
    by simp
  have d: "''satisfaction'' \<in> set numeric_cols \<and> ''satisfaction'' \<in> set (columns gap2)"
    by (simp add: numeric_cols_def gap2_def columns_def)
  have e: "analyze_by_segment gap2 ''region'' = Inr gap2_table"
    by (simp add: analyze_by_segment_def gap2_def gap2_table_def numeric_cols_def columns_def
        getcol_def bind_res_def sorted_keys_def group_rows_def agg_group_def mean_fl_def
        std_fl_def round_half_even_def Let_def)
  have f: "count_total gap2_table ''satisfaction'' = 1"
    by (simp add: count_total_def gap2_table_def)
  have g: "nrows gap2 = 2"
    by (simp add: gap2_def)
  from a b c d e f g show ?thesis by simp
qed

theorem analyze_by_segment_rows_and_counts_witness:
  "analyze_by_segment survey3 ''region'' = Inr []
   \<and> wf_df regions3 \<and> metrics_numeric regions3
   \<and> getcol regions3 ''region'' = Some (TextCol [Some ''North'', Some ''East'', Some ''North''])
   \<and> null_count (TextCol [Some ''North'', Some ''East'', Some ''North'']) = 0
   \<and> (\<exists>tbl. analyze_by_segment regions3 ''region'' = Inr tbl
          \<and> map fst tbl = [LStr ''East'', LStr ''North'']
          \<and> count_total tbl ''satisfaction'' = 3)"
proof -
  let ?kc = "TextCol [Some ''North'', Some ''East'', Some ''North'']"
  have h0: "\<forall>c \<in> set numeric_cols. c \<notin> set (columns survey3)"
    by (simp add: numeric_cols_def survey3_def columns_def)
  have h1: "wf_df regions3"
    by (simp add: regions3_def wf_df_def columns_def)
  have h2: "metrics_numeric regions3"
    by (simp add: metrics_numeric_def numeric_cols_def regions3_def getcol_def)
  have h3: "\<exists>c \<in> set numeric_cols. c \<in> set (columns regions3)"
    by (simp add: numeric_cols_def regions3_def columns_def)
  have h4: "getcol regions3 ''region'' = Some ?kc"
    by (simp add: regions3_def getcol_def)
  have h5: "null_count ?kc = 0"
    by simp
  have s: "''satisfaction'' \<in> set numeric_cols
           \<and> getcol regions3 ''satisfaction'' = Some (NumCol [F 4, F 5, F 2])
           \<and> NaN \<notin> set [F 4, F 5, F 2]"
    by (simp add: numeric_cols_def regions3_def getcol_def)
  have labels: "group_labels ?kc = [LStr ''East'', LStr ''North'']"
    by (simp add: sorted_keys_def)
  have n: "nrows regions3 = 3"
    by (simp add: regions3_def)
  from analyze_by_segment_rows_and_counts [of survey3 "''region''"] h0
  have e: "analyze_by_segment survey3 ''region'' = Inr []"
    by blast
  from analyze_by_segment_rows_and_counts [of regions3 "''region''" ?kc] h1 h2 h3 h4 h5
  obtain tbl where tbl: "analyze_by_segment regions3 ''region'' = Inr tbl"
      "map fst tbl = group_labels ?kc"
      "\<forall>c xs. c \<in> set numeric_cols \<and> getcol regions3 c = Some (NumCol xs) \<and> NaN \<notin> set xs
                \<longrightarrow> count_total tbl c = nrows regions3"
    by blast
  from tbl(3) s have "count_total tbl ''satisfaction'' = nrows regions3"
    by blast
  with tbl(1,2) labels n
  have "\<exists>tbl. analyze_by_segment regions3 ''region'' = Inr tbl
          \<and> map fst tbl = [LStr ''East'', LStr ''North'']
          \<and> count_total tbl ''satisfaction'' = 3"
    by simp
  with e h1 h2 h4 h5 show ?thesis by blast
qed

section \<open>Best segment: the first maximal group mean\<close>

text \<open>
  Where \<^verbatim>\<open>calculate_comprehensive_stats\<close> returns a record, its fields
  \<^verbatim>\<open>best_region\<close> and \<^verbatim>\<open>best_region_score\<close> are the result of the segment
  block, which is the first group, in ascending key order, whose mean is the greatest;
  without one of the two columns they are \<^verbatim>\<open>"N/A"\<close> and 0.
\<close>

lemma idxmax_None:
  assumes "idxmax xs = None"
  shows "\<forall>p \<in> set xs. snd p = NaN"
  using assms
proof (induction xs rule: idxmax.induct)
  case 1
  show ?case by simp
next
  case (2 l xs)
  then show ?case by simp
next
  case (3 l r xs)
  then show ?case by (simp split: option.splits prod.splits if_splits)
qed

lemma idxmax_first_maximum:
  assumes "idxmax xs = Some (l, r)"
  shows "\<exists>ys zs. xs = ys @ (l, F r) # zs
           \<and> (\<forall>p \<in> set ys. \<forall>q. snd p = F q \<longrightarrow> q < r)
           \<and> (\<forall>p \<in> set zs. \<forall>q. snd p = F q \<longrightarrow> q \<le> r)"
  using assms
proof (induction xs arbitrary: l r rule: idxmax.induct)
  case 1
  then show ?case by simp
next
  case (2 l0 xs)
  then have "idxmax xs = Some (l, r)" by simp
  from "2.IH" [OF this] obtain ys zs where d: "xs = ys @ (l, F r) # zs"
      "\<forall>p \<in> set ys. \<forall>q. snd p = F q \<longrightarrow> q < r"
      "\<forall>p \<in> set zs. \<forall>q. snd p = F q \<longrightarrow> q \<le> r"
    by blast
  have "(l0, NaN) # xs = ((l0, NaN) # ys) @ (l, F r) # zs" using d(1) by simp
  moreover have "\<forall>p \<in> set ((l0, NaN) # ys). \<forall>q. snd p = F q \<longrightarrow> q < r" using d(2) by simp
  ultimately show ?case using d(3) by blast
next
  case (3 l0 r0 xs)
  show ?case
  proof (cases "idxmax xs")
    case None
    with "3.prems" have e: "l = l0" "r = r0" by simp_all
    from idxmax_None [OF None] have "\<forall>p \<in> set xs. \<forall>q. snd p = F q \<longrightarrow> q \<le> r" by simp
    moreover have "(l0, F r0) # xs = [] @ (l, F r) # xs" using e by simp
    ultimately show ?thesis by fastforce
  next
    case (Some b)
    obtain l' r' where b: "b = (l', r')" by (cases b)
    from "3.IH" [of l' r'] Some b obtain ys zs where d: "xs = ys @ (l', F r') # zs"
        "\<forall>p \<in> set ys. \<forall>q. snd p = F q \<longrightarrow> q < r'"
        "\<forall>p \<in> set zs. \<forall>q. snd p = F q \<longrightarrow> q \<le> r'"
      by blast
    show ?thesis
    proof (cases "r' > r0")
      case True
      with "3.prems" Some b have e: "l = l'" "r = r'" by simp_all
      have "(l0, F r0) # xs = ((l0, F r0) # ys) @ (l, F r) # zs" using d(1) e by simp
      moreover have "\<forall>p \<in> set ((l0, F r0) # ys). \<forall>q. snd p = F q \<longrightarrow> q < r"
        using d(2) e True by simp
      moreover have "\<forall>p \<in> set zs. \<forall>q. snd p = F q \<longrightarrow> q \<le> r" using d(3) e by simp
      ultimately show ?thesis by blast
    next
      case False
      with "3.prems" Some b have e: "l = l0" "r = r0" by simp_all
      have "\<forall>p \<in> set xs. \<forall>q. snd p = F q \<longrightarrow> q \<le> r"
      proof (intro ballI allI impI)
        fix p q assume p: "p \<in> set xs" "snd p = F q"
        from p(1) d(1) consider "p \<in> set ys" | "p = (l', F r')" | "p \<in> set zs" by auto
        then have "q \<le> r'"
        proof cases
          case 1 with d(2) p(2) show ?thesis by fastforce
        next
          case 2 with p(2) show ?thesis by simp
        next
          case 3 with d(3) p(2) show ?thesis by fastforce
        qed
        with False e show "q \<le> r" by simp
      qed
      moreover have "(l0, F r0) # xs = [] @ (l, F r) # xs" using e by simp
      ultimately show ?thesis by fastforce
    qed
  qed
qed

lemma mem_valid: "q \<in> set (valid ys) \<longleftrightarrow> F q \<in> set ys"
proof (induction ys)
  case Nil
  show ?case by simp
next
  case (Cons y ys)
  then show ?case by (cases y) auto
qed

lemma series_max_idxmax:
  assumes "idxmax xs = Some (l, r)"
  shows "series_max xs = F r"
proof -
  from idxmax_first_maximum [OF assms] obtain ys zs where d: "xs = ys @ (l, F r) # zs"
      "\<forall>p \<in> set ys. \<forall>q. snd p = F q \<longrightarrow> q < r"
      "\<forall>p \<in> set zs. \<forall>q. snd p = F q \<longrightarrow> q \<le> r"
    by blast
  have inr: "r \<in> set (valid (map snd xs))"
    using d(1) by (simp add: mem_valid)
  have ub: "q \<le> r" if "q \<in> set (valid (map snd xs))" for q
  proof -
    from that have "F q \<in> snd ` set xs" by (simp add: mem_valid)
    then obtain p where p: "p \<in> set xs" "snd p = F q" by force
    from p(1) d(1) consider "p \<in> set ys" | "p = (l, F r)" | "p \<in> set zs" by auto
    then show ?thesis
    proof cases
      case 1 with d(2) p(2) show ?thesis by fastforce
    next
      case 2 with p(2) show ?thesis by simp
    next
      case 3 with d(3) p(2) show ?thesis by fastforce
    qed
  qed
  from inr obtain v vs where vs: "valid (map snd xs) = v # vs"
    by (cases "valid (map snd xs)") auto
  have "fold max vs v = Max (set (v # vs))"
    by (rule Max.set_eq_fold [symmetric])
  also have "\<dots> = r"
    using inr ub vs by (intro Max_eqI) auto
  finally show ?thesis by (simp add: series_max_def vs)
qed

lemma best_segment_argmax:
  assumes "best_segment df seg = Inr (l, sc)"
    and "getcol df seg = Some kc" and "getcol df ''satisfaction'' = Some vc"
  shows "\<exists>vs r ys zs. numeric_values vc = Inr vs \<and> sc = F r
           \<and> map (\<lambda>l. (l, mean_fl (group_rows kc l vs))) (group_labels kc) = ys @ (l, F r) # zs
           \<and> (\<forall>p \<in> set ys. \<forall>q. snd p = F q \<longrightarrow> q < r)
           \<and> (\<forall>p \<in> set zs. \<forall>q. snd p = F q \<longrightarrow> q \<le> r)"
proof -
  from assms obtain vs where vs: "numeric_values vc = Inr vs"
    by (cases "numeric_values vc") (simp_all add: best_segment_def groupby_mean_def bind_res_def)
  let ?m = "map (\<lambda>l. (l, mean_fl (group_rows kc l vs))) (group_labels kc)"
  from assms vs obtain r where r: "idxmax ?m = Some (l, r)" "sc = series_max ?m"
    by (auto simp: best_segment_def groupby_mean_def bind_res_def split: option.splits)
  from series_max_idxmax [OF r(1)] r(2) have "sc = F r" by simp
  with idxmax_first_maximum [OF r(1)] vs show ?thesis by blast
qed

lemma best_segment_absent:
  assumes "getcol df seg = None \<or> getcol df ''satisfaction'' = None"
  shows "best_segment df seg = Inr (LStr ''N/A'', F 0)"
  using assms by (auto simp: best_segment_def split: option.splits)

lemma bind_res_Inr:
  "bind_res m f = Inr y \<longleftrightarrow> (\<exists>x. m = Inr x \<and> f x = Inr y)"
  by (cases m) (simp_all add: bind_res_def)

lemma stats_best_segments:
  assumes "calculate_comprehensive_stats df = Inr st"
  shows "best_segment df ''region'' = Inr (best_region st, best_region_score st)"
    and "best_segment df ''age_group'' = Inr (top_age_group st, top_age_score st)"
  using assms unfolding calculate_comprehensive_stats_def bind_res_Inr
  by auto

lemmas stats_eval =
  calculate_comprehensive_stats_def bind_res_def stat_date_range_def col_stat_def getcol_def
  calculate_nps_def count_where_def count_between_def best_segment_def groupby_mean_def
  mean_fl_def std_fl_def quantile_fl_def median_fl_def mask_len_def sorted_keys_def Let_def

text \<open>
  Claim C6. On every dataset with a region and a satisfaction column,
  \<^verbatim>\<open>best_region\<close> is the region of greatest mean satisfaction. On the code a
  dataset with these two columns and no recommendation column gets no record at all
  (the call of \<^verbatim>\<open>calculate_nps\<close> raises first), and on a dataset without rows
  \<^verbatim>\<open>idxmax\<close> raises on the empty series of group means:
\<close>

theorem stats_best_region_raises:
  "calculate_comprehensive_stats region_only = Inl KeyError
   \<and> calculate_comprehensive_stats empty_full = Inl ValueError"
proof
  show "calculate_comprehensive_stats region_only = Inl KeyError"
    by (simp add: region_only_def stats_eval)
  show "calculate_comprehensive_stats empty_full = Inl ValueError"
    by (simp add: empty_full_def stats_eval)
qed

end
